theory Spec2Isabelle
  imports Complex_Main
begin

section \<open>The module: \<open>factorial\<close> and \<open>Calculator\<close>\<close>

text \<open>
  The module under study (\<^verbatim>\<open>test-file-types/example.py\<close>):
  \<^verbatim>\<open>
  def factorial(n: int) -> int:
      if n <= 1:
          return 1
      return n * factorial(n - 1)

  class Calculator:
      def add(self, a: float, b: float) -> float:
          return a + b
      def multiply(self, a: float, b: float) -> float:
          return a * b
  \<close>
  Python integers are unbounded, so \<open>n\<close> is an \<open>int\<close> of HOL. Exceptions are values
  of the type \<open>py_error\<close>.
\<close>

datatype py_error = RecursionError | OverflowError

subsection \<open>\<open>factorial\<close>\<close>

text \<open>
  The recursion is not structural: the argument is an integer that decreases towards the
  guard \<open>n \<le> 1\<close>. The termination proof below is the proof that the function returns
  for every integer.
\<close>

function factorial :: "int \<Rightarrow> int" where
  "factorial n = (if n \<le> 1 then 1 else n * factorial (n - 1))"
  by pat_completeness auto
termination
  by (relation "measure nat") auto

declare factorial.simps [simp del]

text \<open>
  The same function with the interpreter's stack made explicit: \<open>factorial_depth d n\<close>
  runs \<open>factorial(n)\<close> when \<open>d\<close> more frames may be entered. Entering a frame beyond
  the limit raises \<open>RecursionError\<close>, which unwinds through every caller. A call that
  returns with \<open>d = 1\<close> has made no recursive call.
\<close>

fun factorial_depth :: "nat \<Rightarrow> int \<Rightarrow> py_error + int" where
  "factorial_depth 0 n = Inl RecursionError"
| "factorial_depth (Suc d) n =
     (if n \<le> 1 then Inr 1
      else (case factorial_depth d (n - 1) of
              Inl err \<Rightarrow> Inl err
            | Inr r \<Rightarrow> Inr (n * r)))"

text \<open>The number of frames \<open>factorial(n)\<close> enters: one for the call itself and one for
  each recursive call.\<close>

definition frames :: "int \<Rightarrow> nat" where
  "frames n = (if n \<le> 1 then 1 else nat n)"

subsection \<open>Python numbers\<close>

text \<open>
  \<open>a + b\<close> and \<open>a * b\<close> are Python's operators. The annotations say \<open>float\<close>, but
  they are not enforced, and the operands may be \<open>int\<close> as well; both are modelled.

  A \<open>float\<close> is an IEEE 754 binary64 number: \<open>Finite s m e\<close> is
  \<open>(-1)\<^sup>s * m * 2\<^sup>e\<close> with the sign bit \<open>s\<close>, a significand \<open>m < 2\<^sup>5\<^sup>3\<close> and an
  exponent \<open>-1074 \<le> e \<le> 971\<close>; a normal number has \<open>2\<^sup>5\<^sup>2 \<le> m\<close>, a subnormal number
  and the two zeros have \<open>e = -1074\<close>. The payload and the sign of a NaN are not
  modelled: there is one \<open>NaN\<close>.
\<close>

datatype float64 = NaN | Inf bool | Finite bool nat int

fun is_float64 :: "float64 \<Rightarrow> bool" where
  "is_float64 NaN = True"
| "is_float64 (Inf s) = True"
| "is_float64 (Finite s m e) =
     (m < 2 ^ 53 \<and> - 1074 \<le> e \<and> e \<le> 971 \<and> (e = - 1074 \<or> 2 ^ 52 \<le> m))"

text \<open>The number of binary digits of \<open>m\<close> (Python's \<open>int.bit_length\<close>).\<close>

function bit_length :: "nat \<Rightarrow> nat" where
  "bit_length m = (if m = 0 then 0 else Suc (bit_length (m div 2)))"
  by pat_completeness auto
termination
  by (relation "measure (\<lambda>m. m)") auto

declare bit_length.simps [simp del]

text \<open>\<open>m / 2\<^sup>k\<close> rounded to the nearest integer, a tie to the even one.\<close>

definition round_half_even :: "nat \<Rightarrow> nat \<Rightarrow> nat" where
  "round_half_even m k =
     (let q = m div 2 ^ k; r = m mod 2 ^ k in
      if 2 * r < 2 ^ k then q
      else if 2 ^ k < 2 * r then q + 1
      else if even q then q else q + 1)"

text \<open>
  The binary64 number nearest to the exact value \<open>(-1)\<^sup>s * m * 2\<^sup>e\<close> (round to nearest,
  ties to even, the rounding mode Python runs with): \<open>q\<close> is the exponent of the
  last kept digit, the significand is scaled or rounded to it, a carry out of 53 digits
  is renormalised, and a result beyond the largest finite number is an infinity.
\<close>

definition round_float64 :: "bool \<Rightarrow> nat \<Rightarrow> int \<Rightarrow> float64" where
  "round_float64 s m e =
     (if m = 0 then Finite s 0 (- 1074)
      else
        let q = max (e + int (bit_length m) - 53) (- 1074);
            r = (if q \<le> e then m * 2 ^ nat (e - q) else round_half_even m (nat (q - e)));
            q' = (if r = 2 ^ 53 then q + 1 else q);
            r' = (if r = 2 ^ 53 then 2 ^ 52 else r)
        in if 971 < q' then Inf s else Finite s r' q')"

definition signed :: "bool \<Rightarrow> nat \<Rightarrow> int" where
  "signed s m = (if s then - int m else int m)"

text \<open>
  Addition: the exact sum of two finite numbers, rounded. An exact zero sum is \<open>+0\<close>
  unless both operands are negative (zeros).
\<close>

fun float_add :: "float64 \<Rightarrow> float64 \<Rightarrow> float64" where
  "float_add NaN y = NaN"
| "float_add (Inf s) NaN = NaN"
| "float_add (Inf s) (Inf t) = (if s = t then Inf s else NaN)"
| "float_add (Inf s) (Finite t n f) = Inf s"
| "float_add (Finite s m e) NaN = NaN"
| "float_add (Finite s m e) (Inf t) = Inf t"
| "float_add (Finite s m e) (Finite t n f) =
     (let g = min e f;
          c = signed s m * 2 ^ nat (e - g) + signed t n * 2 ^ nat (f - g)
      in if c = 0 then Finite (s \<and> t) 0 (- 1074)
         else round_float64 (c < 0) (nat \<bar>c\<bar>) g)"

text \<open>Multiplication: the exact product, rounded; infinity times zero is NaN.\<close>

fun float_mul :: "float64 \<Rightarrow> float64 \<Rightarrow> float64" where
  "float_mul NaN y = NaN"
| "float_mul (Inf s) NaN = NaN"
| "float_mul (Inf s) (Inf t) = Inf (s \<noteq> t)"
| "float_mul (Inf s) (Finite t n f) = (if n = 0 then NaN else Inf (s \<noteq> t))"
| "float_mul (Finite s m e) NaN = NaN"
| "float_mul (Finite s m e) (Inf t) = (if m = 0 then NaN else Inf (s \<noteq> t))"
| "float_mul (Finite s m e) (Finite t n f) = round_float64 (s \<noteq> t) (m * n) (e + f)"

text \<open>
  The comparison \<open>==\<close> of two floats: NaN equals nothing, itself included, and
  \<open>+0 == -0\<close>. Two finite numbers are compared by value.
\<close>

definition dyadic_eq :: "bool \<Rightarrow> nat \<Rightarrow> int \<Rightarrow> bool \<Rightarrow> nat \<Rightarrow> int \<Rightarrow> bool" where
  "dyadic_eq s m e t n f =
     (let g = min e f
      in signed s m * 2 ^ nat (e - g) = signed t n * 2 ^ nat (f - g))"

fun float_eq :: "float64 \<Rightarrow> float64 \<Rightarrow> bool" where
  "float_eq NaN y = False"
| "float_eq (Inf s) NaN = False"
| "float_eq (Inf s) (Inf t) = (s = t)"
| "float_eq (Inf s) (Finite t n f) = False"
| "float_eq (Finite s m e) NaN = False"
| "float_eq (Finite s m e) (Inf t) = False"
| "float_eq (Finite s m e) (Finite t n f) = dyadic_eq s m e t n f"

text \<open>
  A Python number is an \<open>int\<close> or a \<open>float\<close>. In a mixed operation the \<open>int\<close> is
  converted to \<open>float\<close> first, correctly rounded; an \<open>int\<close> too large for a finite
  float raises \<open>OverflowError\<close>. A comparison of an \<open>int\<close> with a \<open>float\<close> is exact.
\<close>

datatype pyval = PyInt int | PyFloat float64

fun is_pyval :: "pyval \<Rightarrow> bool" where
  "is_pyval (PyInt i) = True"
| "is_pyval (PyFloat x) = is_float64 x"

fun is_nan :: "pyval \<Rightarrow> bool" where
  "is_nan (PyFloat NaN) = True"
| "is_nan v = False"

definition int_to_float :: "int \<Rightarrow> py_error + float64" where
  "int_to_float i =
     (case round_float64 (i < 0) (nat \<bar>i\<bar>) 0 of
        Inf s \<Rightarrow> Inl OverflowError
      | x \<Rightarrow> Inr x)"

fun py_add :: "pyval \<Rightarrow> pyval \<Rightarrow> py_error + pyval" where
  "py_add (PyInt i) (PyInt j) = Inr (PyInt (i + j))"
| "py_add (PyInt i) (PyFloat y) =
     (case int_to_float i of
        Inl err \<Rightarrow> Inl err
      | Inr x \<Rightarrow> Inr (PyFloat (float_add x y)))"
| "py_add (PyFloat x) (PyInt j) =
     (case int_to_float j of
        Inl err \<Rightarrow> Inl err
      | Inr y \<Rightarrow> Inr (PyFloat (float_add x y)))"
| "py_add (PyFloat x) (PyFloat y) = Inr (PyFloat (float_add x y))"

fun py_mul :: "pyval \<Rightarrow> pyval \<Rightarrow> py_error + pyval" where
  "py_mul (PyInt i) (PyInt j) = Inr (PyInt (i * j))"
| "py_mul (PyInt i) (PyFloat y) =
     (case int_to_float i of
        Inl err \<Rightarrow> Inl err
      | Inr x \<Rightarrow> Inr (PyFloat (float_mul x y)))"
| "py_mul (PyFloat x) (PyInt j) =
     (case int_to_float j of
        Inl err \<Rightarrow> Inl err
      | Inr y \<Rightarrow> Inr (PyFloat (float_mul x y)))"
| "py_mul (PyFloat x) (PyFloat y) = Inr (PyFloat (float_mul x y))"

fun py_eq :: "pyval \<Rightarrow> pyval \<Rightarrow> bool" where
  "py_eq (PyInt i) (PyInt j) = (i = j)"
| "py_eq (PyInt i) (PyFloat y) =
     (case y of Finite t n f \<Rightarrow> dyadic_eq (i < 0) (nat \<bar>i\<bar>) 0 t n f | _ \<Rightarrow> False)"
| "py_eq (PyFloat x) (PyInt j) =
     (case x of Finite s m e \<Rightarrow> dyadic_eq s m e (j < 0) (nat \<bar>j\<bar>) 0 | _ \<Rightarrow> False)"
| "py_eq (PyFloat x) (PyFloat y) = float_eq x y"

text \<open>
  The expression \<open>l == r\<close>, where \<open>l\<close> and \<open>r\<close> are the outcomes of the two operand
  expressions, evaluated left to right: an exception of an operand is the exception of
  the comparison.
\<close>

definition eq_expr :: "py_error + pyval \<Rightarrow> py_error + pyval \<Rightarrow> py_error + bool" where
  "eq_expr l r =
     (case l of
        Inl err \<Rightarrow> Inl err
      | Inr u \<Rightarrow> (case r of Inl err \<Rightarrow> Inl err | Inr v \<Rightarrow> Inr (py_eq u v)))"

subsection \<open>The value of a float\<close>


fun float_val :: "float64 \<Rightarrow> rat" where
  "float_val (Finite s m e) = of_int (signed s m) * 2 powi e"
| "float_val x = 0"


subsection \<open>\<open>Calculator\<close>\<close>

text \<open>
  The class declares no attribute and no constructor. An instance is its attribute
  dictionary, which a caller may have filled; a method takes the instance and returns
  its outcome together with the instance as the method leaves it.
\<close>

type_synonym calculator = "string \<rightharpoonup> pyval"

definition add :: "calculator \<Rightarrow> pyval \<Rightarrow> pyval \<Rightarrow> (py_error + pyval) \<times> calculator" where
  "add self a b = (py_add a b, self)"

definition multiply :: "calculator \<Rightarrow> pyval \<Rightarrow> pyval \<Rightarrow> (py_error + pyval) \<times> calculator" where
  "multiply self a b = (py_mul a b, self)"

text \<open>A sequence of method calls on one instance, each outcome recorded.\<close>

datatype call = Add pyval pyval | Multiply pyval pyval

fun invoke :: "calculator \<Rightarrow> call \<Rightarrow> (py_error + pyval) \<times> calculator" where
  "invoke self (Add a b) = add self a b"
| "invoke self (Multiply a b) = multiply self a b"

fun run_calls :: "calculator \<Rightarrow> call list \<Rightarrow> (py_error + pyval) list \<times> calculator" where
  "run_calls self [] = ([], self)"
| "run_calls self (c # cs) =
     (case invoke self c of
        (r, self') \<Rightarrow> (case run_calls self' cs of (rs, self'') \<Rightarrow> (r # rs, self'')))"

subsection \<open>The interpreter's state\<close>










section \<open>Lemmas\<close>

subsection \<open>Lemmas on \<open>factorial\<close>\<close>

lemma factorial_base: "n \<le> 1 \<Longrightarrow> factorial n = 1"
  by (simp add: factorial.simps)

lemma factorial_step: "1 < n \<Longrightarrow> factorial n = n * factorial (n - 1)"
  by (simp add: factorial.simps)

lemma factorial_depth_enough:
  "frames n \<le> d \<Longrightarrow> factorial_depth d n = Inr (factorial n)"
proof (induction d arbitrary: n)
  case 0
  then show ?case by (simp add: frames_def split: if_splits)
next
  case (Suc d)
  show ?case
  proof (cases "n \<le> 1")
    case True
    then show ?thesis by (simp add: factorial_base)
  next
    case False
    with Suc.prems have "frames (n - 1) \<le> d"
      unfolding frames_def by (cases "n \<le> 2") auto
    then have "factorial_depth d (n - 1) = Inr (factorial (n - 1))"
      by (rule Suc.IH)
    with False show ?thesis by (simp add: factorial_step)
  qed
qed

lemma factorial_depth_short:
  "d < frames n \<Longrightarrow> factorial_depth d n = Inl RecursionError"
proof (induction d arbitrary: n)
  case 0
  show ?case by simp
next
  case (Suc d)
  from Suc.prems have gt: "1 < n"
    by (simp add: frames_def split: if_splits)
  with Suc.prems have "d < frames (n - 1)"
    unfolding frames_def by (cases "n \<le> 2") auto
  then have "factorial_depth d (n - 1) = Inl RecursionError"
    by (rule Suc.IH)
  with gt show ?case by simp
qed

lemma factorial_depth_result:
  "factorial_depth d n = Inr r \<Longrightarrow> r = factorial n"
proof (cases "frames n \<le> d")
  case True
  assume "factorial_depth d n = Inr r"
  with factorial_depth_enough [OF True] show ?thesis by simp
next
  case False
  assume "factorial_depth d n = Inr r"
  with factorial_depth_short [of d n] False show ?thesis by simp
qed

subsection \<open>Lemmas on the numbers\<close>

lemma bit_length_0: "bit_length 0 = 0"
  by (simp add: bit_length.simps)

lemma bit_length_pos: "m \<noteq> 0 \<Longrightarrow> bit_length m = Suc (bit_length (m div 2))"
  by (subst bit_length.simps) simp

lemma bit_length_le: "m < 2 ^ k \<Longrightarrow> bit_length m \<le> k"
proof (induction k arbitrary: m)
  case 0
  then show ?case by (simp add: bit_length_0)
next
  case (Suc k)
  show ?case
  proof (cases "m = 0")
    case True
    then show ?thesis by (simp add: bit_length_0)
  next
    case False
    from Suc.prems have "m div 2 < 2 ^ k" by simp
    then have "bit_length (m div 2) \<le> k" by (rule Suc.IH)
    with False show ?thesis by (simp add: bit_length_pos)
  qed
qed

lemma bit_length_ge: "2 ^ k \<le> m \<Longrightarrow> Suc k \<le> bit_length m"
proof (induction k arbitrary: m)
  case 0
  then have "m \<noteq> 0" by auto
  then show ?case by (simp add: bit_length_pos)
next
  case (Suc k)
  have "(0::nat) < 2 ^ Suc k" by simp
  with Suc.prems have nz: "m \<noteq> 0" by linarith
  from Suc.prems have "2 ^ k \<le> m div 2" by simp
  then have "Suc k \<le> bit_length (m div 2)" by (rule Suc.IH)
  with nz show ?case by (simp add: bit_length_pos)
qed

lemma bit_length_normal: "2 ^ 52 \<le> m \<Longrightarrow> m < 2 ^ 53 \<Longrightarrow> bit_length m = 53"
  using bit_length_le [of m 53] bit_length_ge [of 52 m] by simp

lemma bit_length_shift: "m \<noteq> 0 \<Longrightarrow> bit_length (m * 2 ^ k) = bit_length m + k"
proof (induction k)
  case 0
  show ?case by simp
next
  case (Suc k)
  then have "m * 2 ^ Suc k \<noteq> 0" by simp
  then have "bit_length (m * 2 ^ Suc k) = Suc (bit_length ((m * 2 ^ Suc k) div 2))"
    by (rule bit_length_pos)
  also have "(m * 2 ^ Suc k) div 2 = m * 2 ^ k" by simp
  finally show ?case using Suc by simp
qed

lemma round_half_even_exact: "round_half_even (m * 2 ^ k) k = m"
  by (simp add: round_half_even_def Let_def)

lemma round_float64_exact:
  assumes nz: "m \<noteq> 0" and ok: "is_float64 (Finite s m e)"
  shows "round_float64 s (m * 2 ^ k) (e - int k) = Finite s m e"
proof -
  from ok have m53: "m < 2 ^ 53" and lo: "- 1074 \<le> e" and hi: "e \<le> 971"
    and form: "e = - 1074 \<or> 2 ^ 52 \<le> m" by simp_all
  have bl: "bit_length (m * 2 ^ k) = bit_length m + k"
    using nz by (rule bit_length_shift)
  have le53: "bit_length m \<le> 53" using m53 by (rule bit_length_le)
  have q: "max (e - int k + int (bit_length (m * 2 ^ k)) - 53) (- 1074) = e"
  proof (cases "2 ^ 52 \<le> m")
    case True
    then have "bit_length m = 53" using m53 by (rule bit_length_normal)
    with lo show ?thesis by (simp add: bl)
  next
    case False
    with form have "e = - 1074" by simp
    with le53 show ?thesis by (simp add: bl)
  qed
  have r: "(if e \<le> e - int k then m * 2 ^ k * 2 ^ nat (e - int k - e)
            else round_half_even (m * 2 ^ k) (nat (e - (e - int k)))) = m"
    by (cases "k = 0") (simp_all add: round_half_even_exact)
  from nz have nz': "m * 2 ^ k \<noteq> 0" by simp
  from m53 have ne: "m \<noteq> 2 ^ 53" by simp
  show ?thesis
    unfolding round_float64_def Let_def q r using nz' ne hi by simp
qed

lemma float_mul_commute: "float_mul x y = float_mul y x"
proof (cases x)
  case NaN
  then show ?thesis by (cases y) simp_all
next
  case (Inf s)
  then show ?thesis by (cases y) auto
next
  case x: (Finite s m e)
  show ?thesis
  proof (cases y)
    case NaN
    with x show ?thesis by simp
  next
    case (Inf t)
    with x show ?thesis by auto
  next
    case (Finite t n f)
    have "(s \<noteq> t) = (t \<noteq> s)" by blast
    then have "round_float64 (s \<noteq> t) (m * n) (e + f) = round_float64 (t \<noteq> s) (n * m) (f + e)"
      by (simp only: mult.commute [of m n] add.commute [of e f])
    with x Finite show ?thesis by (simp only: float_mul.simps)
  qed
qed

lemma py_mul_commute: "py_mul a b = py_mul b a"
proof (cases a)
  case (PyInt i)
  then show ?thesis
    by (cases b) (simp_all add: mult.commute float_mul_commute split: sum.splits)
next
  case (PyFloat x)
  then show ?thesis
    by (cases b) (simp_all add: float_mul_commute split: sum.splits)
qed

lemma dyadic_eq_refl: "dyadic_eq s m e s m e"
  by (simp add: dyadic_eq_def)

lemma float_eq_refl: "float_eq x x = (x \<noteq> NaN)"
  by (cases x) (simp_all add: dyadic_eq_refl)

lemma py_eq_refl: "py_eq v v = (\<not> is_nan v)"
proof (cases v)
  case (PyInt i)
  then show ?thesis by simp
next
  case (PyFloat x)
  then show ?thesis by (cases x) (simp_all add: dyadic_eq_refl)
qed

lemma int_to_float_0: "int_to_float 0 = Inr (Finite False 0 (- 1074))"
  by (simp add: int_to_float_def round_float64_def)

lemma float_add_zero:
  assumes ok: "is_float64 (Finite s m e)"
  shows "float_add (Finite s m e) (Finite False 0 (- 1074)) =
           (if m = 0 then Finite False 0 (- 1074) else Finite s m e)"
proof (cases "m = 0")
  case True
  then show ?thesis by (simp add: signed_def)
next
  case False
  from ok have lo: "- 1074 \<le> e" by simp
  define k where "k = nat (e + 1074)"
  from lo have e: "- 1074 = e - int k" by (simp add: k_def)
  from lo have g: "min e (- 1074) = - 1074" by simp
  have c: "signed s m * 2 ^ nat (e - - 1074) + signed False 0 * 2 ^ nat (- 1074 - - 1074)
             = signed s m * 2 ^ k"
    by (simp add: signed_def k_def)
  have nz: "signed s m * 2 ^ k \<noteq> 0" using False by (simp add: signed_def)
  have neg: "(signed s m * 2 ^ k < 0) = s"
    using False by (cases s) (simp_all add: signed_def mult_less_0_iff)
  have mag: "nat \<bar>signed s m * 2 ^ k\<bar> = m * 2 ^ k"
    by (cases s) (simp_all add: signed_def abs_mult nat_mult_distrib nat_power_eq)
  have "float_add (Finite s m e) (Finite False 0 (- 1074)) = round_float64 s (m * 2 ^ k) (- 1074)"
    by (simp only: float_add.simps g Let_def c nz neg mag if_False)
  also have "\<dots> = round_float64 s (m * 2 ^ k) (e - int k)" using e by simp
  also have "\<dots> = Finite s m e" using False ok by (rule round_float64_exact)
  finally show ?thesis using False by simp
qed

lemma float_add_zero_eq:
  assumes ok: "is_float64 x"
  shows "float_eq (float_add x (Finite False 0 (- 1074))) x = (x \<noteq> NaN)"
proof (cases x)
  case NaN
  then show ?thesis by simp
next
  case (Inf s)
  then show ?thesis by simp
next
  case (Finite s m e)
  with ok have "is_float64 (Finite s m e)" by simp
  then have "float_add (Finite s m e) (Finite False 0 (- 1074)) =
           (if m = 0 then Finite False 0 (- 1074) else Finite s m e)"
    by (rule float_add_zero)
  then show ?thesis using Finite
    by (auto simp: dyadic_eq_def signed_def)
qed

lemma py_add_zero:
  assumes ok: "is_pyval a"
  shows "eq_expr (py_add a (PyInt 0)) (Inr a) = Inr (\<not> is_nan a)"
proof (cases a)
  case (PyInt i)
  then show ?thesis by (simp add: eq_expr_def)
next
  case (PyFloat x)
  with ok have "is_float64 x" by simp
  then have "float_eq (float_add x (Finite False 0 (- 1074))) x = (x \<noteq> NaN)"
    by (rule float_add_zero_eq)
  moreover have "is_nan (PyFloat x) = (x = NaN)" by (cases x) simp_all
  ultimately show ?thesis using PyFloat
    by (simp add: eq_expr_def int_to_float_0)
qed

subsection \<open>The value of a rounded number, of a sum and of a product\<close>

















lemma float_val_zero: "float_val (Finite s 0 e) = 0"
  by (simp add: signed_def)



















subsection \<open>Lemmas on \<open>Calculator\<close>\<close>

lemma invoke_result: "invoke self c = (case c of Add a b \<Rightarrow> py_add a b | Multiply a b \<Rightarrow> py_mul a b, self)"
  by (cases c) (simp_all add: add_def multiply_def)

lemma run_calls_result:
  "run_calls self cs = (map (\<lambda>c. case c of Add a b \<Rightarrow> py_add a b | Multiply a b \<Rightarrow> py_mul a b) cs, self)"
  by (induction cs arbitrary: self) (simp_all add: invoke_result)

subsection \<open>Lemmas on the interpreter's state\<close>









subsection \<open>The float model on known values\<close>

text \<open>
  Values every Python prints: \<open>0.1 + 0.2\<close> is \<open>0.30000000000000004\<close>
  (\<open>5404319552844596 * 2\<^sup>-\<^sup>5\<^sup>4\<close>), \<open>0.1 * 0.2\<close> is \<open>0.020000000000000004\<close>,
  \<open>float(2**53 + 1)\<close> is \<open>2.0**53\<close> (a tie, rounded to the even significand) and
  \<open>float(2**53 + 3)\<close> is \<open>2.0**53 + 4\<close>; the product of the two smallest subnormal
  numbers of opposite sign is \<open>-0.0\<close>.
\<close>

lemmas float_eval =
  round_float64_def round_half_even_def Let_def bit_length.simps signed_def int_to_float_def

lemma float_add_tenth_fifth:
  "float_add (Finite False 3602879701896397 (- 55)) (Finite False 3602879701896397 (- 54))
     = Finite False 5404319552844596 (- 54)"
  by (simp add: float_eval)

lemma float_mul_tenth_fifth:
  "float_mul (Finite False 3602879701896397 (- 55)) (Finite False 3602879701896397 (- 54))
     = Finite False 5764607523034236 (- 58)"
  by (simp add: float_eval)

lemma int_to_float_tie_down: "int_to_float (2 ^ 53 + 1) = Inr (Finite False 4503599627370496 1)"
  by (simp add: float_eval)

lemma int_to_float_tie_up: "int_to_float (2 ^ 53 + 3) = Inr (Finite False 4503599627370498 1)"
  by (simp add: float_eval)

lemma float_mul_underflow:
  "float_mul (Finite True 1 (- 1074)) (Finite False 1 (- 1074)) = Finite True 0 (- 1074)"
  by (simp add: float_eval)

lemma float_literal_three_halves:
  "round_float64 True 3 (- 1) = Finite True 6755399441055744 (- 52)"
  by (simp add: float_eval)

section \<open>The claims\<close>

text \<open>
  C1. For every integer \<open>n\<close>, \<open>factorial(n)\<close> is 1 when \<open>n \<le> 1\<close> and otherwise
  \<open>n\<close> times \<open>factorial(n - 1)\<close>; the function returns a value for every integer
  once the stack admits \<open>frames n\<close> frames; and \<open>factorial(0) = 1\<close>,
  \<open>factorial(1) = 1\<close>, \<open>factorial(5) = 120\<close>, \<open>factorial(10) = 3628800\<close>.
\<close>

theorem factorial_contract:
  "factorial n = (if n \<le> 1 then 1 else n * factorial (n - 1))
   \<and> factorial_depth (frames n) n = Inr (factorial n)
   \<and> factorial 0 = 1 \<and> factorial 1 = 1
   \<and> factorial 5 = 120 \<and> factorial 10 = 3628800"
proof -
  have rec: "factorial n = (if n \<le> 1 then 1 else n * factorial (n - 1))"
    by (rule factorial.simps)
  have ret: "factorial_depth (frames n) n = Inr (factorial n)"
    by (rule factorial_depth_enough) simp
  have f0: "factorial 0 = 1" and f1: "factorial 1 = 1"
    by (simp_all add: factorial_base)
  have f2: "factorial 2 = 2" using factorial_step [of 2] f1 by simp
  have f3: "factorial 3 = 6" using factorial_step [of 3] f2 by simp
  have f4: "factorial 4 = 24" using factorial_step [of 4] f3 by simp
  have f5: "factorial 5 = 120" using factorial_step [of 5] f4 by simp
  have f6: "factorial 6 = 720" using factorial_step [of 6] f5 by simp
  have f7: "factorial 7 = 5040" using factorial_step [of 7] f6 by simp
  have f8: "factorial 8 = 40320" using factorial_step [of 8] f7 by simp
  have f9: "factorial 9 = 362880" using factorial_step [of 9] f8 by simp
  have f10: "factorial 10 = 3628800" using factorial_step [of 10] f9 by simp
  from rec ret f0 f1 f5 f10 show ?thesis by blast
qed

text \<open>
  C3. For every integer \<open>n > 0\<close>, \<open>factorial(n) == n * factorial(n - 1)\<close>. At
  \<open>n = 1\<close> both sides are 1, since \<open>factorial(0)\<close> is 1.
\<close>

theorem factorial_recurrence:
  "0 < n \<Longrightarrow> factorial n = n * factorial (n - 1)"
proof (cases "n = 1")
  case True
  then show ?thesis by (simp add: factorial_base)
next
  case False
  assume "0 < n"
  with False have "1 < n" by simp
  then show ?thesis by (rule factorial_step)
qed

theorem factorial_recurrence_witness:
  "(0::int) < 7 \<and> factorial 7 = 7 * factorial 6"
  using factorial_recurrence [of 7] by simp

text \<open>
  C10. \<open>factorial\<close> is total over the integers: every call returns a value once the
  stack admits \<open>frames n\<close> frames; and for every \<open>n \<le> 1\<close>, the negative integers
  included, the guard \<open>n <= 1\<close> is taken in the first frame, which returns 1 without
  a recursive call (one frame is enough).
\<close>

theorem factorial_total:
  "(\<exists>r. factorial_depth (frames n) n = Inr r)
   \<and> (n \<le> 1 \<longrightarrow> factorial_depth (Suc 0) n = Inr 1 \<and> factorial n = 1)"
proof -
  have "factorial_depth (frames n) n = Inr (factorial n)"
    by (rule factorial_depth_enough) simp
  then have ret: "\<exists>r. factorial_depth (frames n) n = Inr r" ..
  have "factorial_depth (Suc 0) n = Inr 1 \<and> factorial n = 1" if "n \<le> 1"
    using that by (simp add: factorial_base)
  with ret show ?thesis by blast
qed

theorem factorial_total_witness:
  "(\<exists>r. factorial_depth (frames (- 3)) (- 3) = Inr r)
   \<and> (- 3 :: int) \<le> 1
   \<and> factorial_depth (Suc 0) (- 3) = Inr 1 \<and> factorial (- 3) = 1"
  using factorial_total [of "- 3"] by simp

text \<open>
  C2 states that \<open>factorial(n)\<close> does not terminate for a negative \<open>n\<close>. The guard
  \<open>n <= 1\<close> holds for every negative integer, so the call returns at once:
  \<open>factorial(-1)\<close> returns 1 from its first frame.
\<close>

theorem factorial_negative_counterexample:
  "factorial_depth (Suc 0) (- 1) = Inr 1 \<and> factorial (- 1) = 1"
  by (simp add: factorial_base)

text \<open>
  C2, as amended. For every negative integer \<open>n\<close>, \<open>factorial(n)\<close> terminates and
  returns 1: with any stack that admits the call itself, the first frame takes the guard
  and no recursive call is made.
\<close>

theorem factorial_negative:
  "n < 0 \<Longrightarrow> 0 < d \<Longrightarrow> factorial_depth d n = Inr 1 \<and> factorial n = 1"
proof -
  assume neg: "n < 0" and pos: "0 < d"
  from pos obtain d' where d: "d = Suc d'" by (cases d) auto
  from neg have "n \<le> 1" by simp
  then show ?thesis by (simp add: d factorial_base)
qed

theorem factorial_negative_witness:
  "(- 5 :: int) < 0 \<and> (0::nat) < 1
   \<and> factorial_depth 1 (- 5) = Inr 1 \<and> factorial (- 5) = 1"
  using factorial_negative [of "- 5" 1] by simp





text \<open>
  C6 states \<open>multiply(a, b) == multiply(b, a)\<close> for all operands, floats included.
  With \<open>a = nan\<close> and \<open>b = 1.0\<close> both products are NaN, and \<open>nan == nan\<close> is False.
\<close>

theorem multiply_nan_counterexample:
  "eq_expr (fst (multiply Map.empty (PyFloat NaN) (PyFloat (Finite False 4503599627370496 (- 52)))))
           (fst (multiply Map.empty (PyFloat (Finite False 4503599627370496 (- 52))) (PyFloat NaN)))
     = Inr False"
  by (simp add: multiply_def eq_expr_def)

text \<open>
  C6, as amended. For all operands \<open>a\<close> and \<open>b\<close>, \<open>multiply(a, b)\<close> and
  \<open>multiply(b, a)\<close> have the same outcome: the same value, or the same exception. The
  comparison \<open>multiply(a, b) == multiply(b, a)\<close> raises that exception if there is one,
  is True when the product is not NaN, and is False when the product is NaN.
\<close>

theorem multiply_commutes:
  "fst (multiply self a b) = fst (multiply self b a)
   \<and> eq_expr (fst (multiply self a b)) (fst (multiply self b a))
       = (case fst (multiply self a b) of
            Inl err \<Rightarrow> Inl err
          | Inr v \<Rightarrow> Inr (\<not> is_nan v))"
proof -
  have same: "fst (multiply self a b) = fst (multiply self b a)"
    by (simp add: multiply_def py_mul_commute)
  have "eq_expr r r = (case r of Inl err \<Rightarrow> Inl err | Inr v \<Rightarrow> Inr (\<not> is_nan v))" for r
    by (cases r) (simp_all add: eq_expr_def py_eq_refl)
  with same show ?thesis by simp
qed

text \<open>
  C7 states \<open>add(a, 0) == a\<close> for all operands, floats included. With \<open>a = nan\<close> the
  sum is NaN, and \<open>nan == nan\<close> is False.
\<close>

theorem add_zero_nan_counterexample:
  "eq_expr (fst (add Map.empty (PyFloat NaN) (PyInt 0))) (Inr (PyFloat NaN)) = Inr False"
  by (simp add: add_def eq_expr_def int_to_float_0)

text \<open>
  C7, as amended. For every operand \<open>a\<close> that is not NaN (an \<open>int\<close>, or a \<open>float\<close>:
  finite, zero of either sign, or infinite), \<open>add(a, 0) == a\<close> is True; for
  \<open>a = nan\<close> the sum is NaN and the comparison is False.
\<close>

theorem add_zero_identity:
  "is_pyval a \<Longrightarrow> eq_expr (fst (add self a (PyInt 0))) (Inr a) = Inr (\<not> is_nan a)"
  by (simp add: add_def py_add_zero)

theorem add_zero_identity_witness:
  "is_pyval (PyFloat (Finite True 6755399441055744 (- 52)))
   \<and> eq_expr (fst (add Map.empty (PyFloat (Finite True 6755399441055744 (- 52))) (PyInt 0)))
              (Inr (PyFloat (Finite True 6755399441055744 (- 52)))) = Inr True"
  using add_zero_identity [of "PyFloat (Finite True 6755399441055744 (- 52))" Map.empty]
  by simp




text \<open>
  C9. A \<open>Calculator\<close> is stateless: \<open>add\<close> and \<open>multiply\<close> leave the instance
  unchanged and their outcome does not depend on it; after any sequence of calls the
  instance is the one before the sequence, and each outcome is determined by the
  arguments of its own call.
\<close>

theorem calculator_stateless:
  "snd (add self a b) = self \<and> snd (multiply self a b) = self
   \<and> fst (add self a b) = fst (add self' a b)
   \<and> fst (multiply self a b) = fst (multiply self' a b)
   \<and> snd (run_calls self cs) = self
   \<and> fst (run_calls self cs) = fst (run_calls self' cs)
   \<and> fst (run_calls self cs)
       = map (\<lambda>c. case c of Add a b \<Rightarrow> py_add a b | Multiply a b \<Rightarrow> py_mul a b) cs"
  by (simp add: run_calls_result add_def multiply_def)

end
